theory Spec2Isabelle
  imports Complex_Main
begin

section \<open>Data model (src/types.ts)\<close>

text \<open>
  A point of a stroke is the object \<^verbatim>\<open>{ x: number; y: number }\<close>. The fields are called
  \<open>px\<close> and \<open>py\<close> here, so that \<open>x\<close> and \<open>y\<close> stay usable as variables. JavaScript
  numbers are modelled as reals.
\<close>

record point =
  px :: real
  py :: real

text \<open>
  \<^verbatim>\<open>interface Drawing { id; color; strokeWidth; points }\<close>. The field \<^verbatim>\<open>id\<close> is called
  \<open>drawing_id\<close>, since \<open>id\<close> is the identity function of HOL.
\<close>

record drawing =
  drawing_id :: string
  color :: string
  strokeWidth :: real
  points :: "point list"

text \<open>
  The state of the component \<^verbatim>\<open>PdfViewer\<close> that the drawing handlers read and write:
  one field for each \<^verbatim>\<open>useState\<close> cell. \<^verbatim>\<open>PageDrawings\<close> and the two stacks are objects
  keyed by the page number, a missing key reading as \<^verbatim>\<open>undefined\<close>: maps.
\<close>

record viewer =
  activePage :: nat
  drawings :: "nat \<rightharpoonup> drawing list"
  isDrawingMode :: bool
  penColor :: string
  currentPath :: "point list"
  history :: "nat \<rightharpoonup> drawing list list"
  future :: "nat \<rightharpoonup> drawing list list"

text \<open>\<^verbatim>\<open>COLORS[0].value\<close>, the pen colour a fresh viewer starts with.\<close>

definition COLORS :: "(string \<times> string) list" where
  "COLORS = [(''red'', ''#ef4444''), (''yellow'', ''#eab308''),
             (''green'', ''#22c55e''), (''blue'', ''#3b82f6'')]"

text \<open>The values the \<^verbatim>\<open>useState\<close> calls start from.\<close>

definition initial_viewer :: viewer where
  "initial_viewer =
     \<lparr>activePage = 1, drawings = Map.empty, isDrawingMode = False,
      penColor = snd (hd COLORS), currentPath = [],
      history = Map.empty, future = Map.empty\<rparr>"

text \<open>
  \<^verbatim>\<open>m[pageNum] || []\<close>: the entry of the page, the empty array when there is none. (An
  array, also an empty one, is truthy, so an entry that exists is returned as it is.)
\<close>

definition or_empty :: "(nat \<rightharpoonup> 'a list) \<Rightarrow> nat \<Rightarrow> 'a list" where
  "or_empty m pageNum = (case m pageNum of None \<Rightarrow> [] | Some v \<Rightarrow> v)"

section \<open>History (PdfViewer.tsx, saveHistory, undo, redo, clearPageDrawings)\<close>

text \<open>
  Each handler runs to its end before the next event is handled, and the component is
  rendered again in between: the values a handler reads from its closure and the
  \<^verbatim>\<open>prev\<close> its state updaters receive are the same state. A handler is a function from
  the state to the next state.
\<close>

definition saveHistory :: "nat \<Rightarrow> viewer \<Rightarrow> viewer" where
  "saveHistory pageNum s =
     (let currentDrawings = or_empty (drawings s) pageNum in
      s\<lparr>history := (history s)(pageNum \<mapsto> or_empty (history s) pageNum @ [currentDrawings]),
        future := (future s)(pageNum \<mapsto> [])\<rparr>)"

definition undo :: "viewer \<Rightarrow> viewer" where
  "undo s =
     (let pageHistory = or_empty (history s) (activePage s) in
      if length pageHistory = 0 then s
      else
        let previousState = last pageHistory;
            newHistory = butlast pageHistory
        in s\<lparr>future := (future s)(activePage s \<mapsto>
                 or_empty (future s) (activePage s) @ [or_empty (drawings s) (activePage s)]),
             history := (history s)(activePage s \<mapsto> newHistory),
             drawings := (drawings s)(activePage s \<mapsto> previousState)\<rparr>)"

definition redo :: "viewer \<Rightarrow> viewer" where
  "redo s =
     (let pageFuture = or_empty (future s) (activePage s) in
      if length pageFuture = 0 then s
      else
        let nextState = last pageFuture;
            newFuture = butlast pageFuture
        in s\<lparr>history := (history s)(activePage s \<mapsto>
                 or_empty (history s) (activePage s) @ [or_empty (drawings s) (activePage s)]),
             future := (future s)(activePage s \<mapsto> newFuture),
             drawings := (drawings s)(activePage s \<mapsto> nextState)\<rparr>)"

definition clearPageDrawings :: "viewer \<Rightarrow> viewer" where
  "clearPageDrawings s =
     (let currentDrawings = or_empty (drawings s) (activePage s) in
      if length currentDrawings = 0 then s
      else
        let s1 = saveHistory (activePage s) s
        in s1\<lparr>drawings := (drawings s1)(activePage s \<mapsto> [])\<rparr>)"

text \<open>\<^verbatim>\<open>resetViewer\<close>, called when another document is loaded.\<close>

definition resetViewer :: "viewer \<Rightarrow> viewer" where
  "resetViewer s =
     s\<lparr>activePage := 1, drawings := Map.empty, history := Map.empty, future := Map.empty\<rparr>"

section \<open>Live stroke capture (handleMouseDown, handleMouseMove, handleEnd)\<close>

text \<open>
  What a handler reads of a mouse event: the pointer position and the bounding rectangle
  of the canvas the event is delivered to. \<^verbatim>\<open>handleTouchStart\<close> and \<^verbatim>\<open>handleTouchMove\<close> are
  the same two handlers reading the position of the first touch.
\<close>

record mouse_event =
  clientX :: real
  clientY :: real
  rect_left :: real
  rect_top :: real
  rect_width :: real
  rect_height :: real

text \<open>
  The normalized point of an event. On a rectangle of width or height 0 JavaScript
  divides to \<^verbatim>\<open>NaN\<close> or an infinity where HOL divides to 0; no statement below depends on
  the coordinates of such an event.
\<close>

definition event_point :: "mouse_event \<Rightarrow> point" where
  "event_point e =
     \<lparr>px = (clientX e - rect_left e) / rect_width e,
      py = (clientY e - rect_top e) / rect_height e\<rparr>"

definition handleMouseDown :: "mouse_event \<Rightarrow> nat \<Rightarrow> viewer \<Rightarrow> viewer" where
  "handleMouseDown e pageNum s =
     (if \<not> isDrawingMode s then s
      else s\<lparr>currentPath := [event_point e]\<rparr>)"

definition handleMouseMove :: "mouse_event \<Rightarrow> viewer \<Rightarrow> viewer" where
  "handleMouseMove e s =
     (if \<not> isDrawingMode s \<or> length (currentPath s) = 0 then s
      else s\<lparr>currentPath := currentPath s @ [event_point e]\<rparr>)"

text \<open>The decimal digits of a number, as a template literal prints \<^verbatim>\<open>Date.now()\<close>.\<close>

fun string_of_nat :: "nat \<Rightarrow> string" where
  "string_of_nat n =
     (if n < 10 then [''0123456789'' ! n]
      else string_of_nat (n div 10) @ [''0123456789'' ! (n mod 10)])"

declare string_of_nat.simps [simp del]

text \<open>
  \<^verbatim>\<open>handleEnd\<close> is the handler of mouse-up, mouse-leave and touch-end. \<open>now\<close> is the value
  of \<^verbatim>\<open>Date.now()\<close>.
\<close>

definition newDrawing :: "nat \<Rightarrow> string \<Rightarrow> point list \<Rightarrow> drawing" where
  "newDrawing now c path =
     \<lparr>drawing_id = ''draw-'' @ string_of_nat now,
      color = c,
      strokeWidth = (if c = ''eraser'' then 20 else 4),
      points = path\<rparr>"

definition handleEnd :: "nat \<Rightarrow> nat \<Rightarrow> viewer \<Rightarrow> viewer" where
  "handleEnd pageNum now s =
     (if \<not> isDrawingMode s \<or> length (currentPath s) = 0 then s
      else
        let s1 = saveHistory pageNum s
        in s1\<lparr>drawings := (drawings s1)(pageNum \<mapsto>
                  or_empty (drawings s1) pageNum @ [newDrawing now (penColor s) (currentPath s)]),
              currentPath := []\<rparr>)"

text \<open>The toolbar: the annotate toggle and the colour buttons.\<close>

definition toggleDrawingMode :: "viewer \<Rightarrow> viewer" where
  "toggleDrawingMode s = s\<lparr>isDrawingMode := \<not> isDrawingMode s\<rparr>"

definition setPenColor :: "string \<Rightarrow> viewer \<Rightarrow> viewer" where
  "setPenColor c s = s\<lparr>penColor := c\<rparr>"

section \<open>Compositor (renderDrawings, drawPath, DrawingCanvas)\<close>

text \<open>
  The 2D context of a canvas, as far as the code uses it: the five drawing properties it
  assigns, the current path built by \<^verbatim>\<open>beginPath\<close>, \<^verbatim>\<open>moveTo\<close> and \<^verbatim>\<open>lineTo\<close>, and the
  trace of the calls that paint (\<^verbatim>\<open>clearRect\<close>, \<^verbatim>\<open>stroke\<close>), each \<^verbatim>\<open>stroke\<close> with the
  path and the properties it was called under. An assignment to a property stores the
  value as written; what the browser does with the pixels is not part of the model.
\<close>

datatype path_cmd = MoveTo real real | LineTo real real

record stroke_call =
  s_path :: "path_cmd list"
  s_composite :: string
  s_style :: string
  s_width :: real
  s_cap :: string
  s_join :: string

datatype paint_op = ClearRect real real real real | Stroke stroke_call

record ctx2d =
  globalCompositeOperation :: string
  strokeStyle :: string
  lineWidth :: real
  lineCap :: string
  lineJoin :: string
  path :: "path_cmd list"
  painted :: "paint_op list"

record canvas =
  canvas_width :: real
  canvas_height :: real
  context2d :: "ctx2d option"

definition clearRect :: "real \<Rightarrow> real \<Rightarrow> real \<Rightarrow> real \<Rightarrow> ctx2d \<Rightarrow> ctx2d" where
  "clearRect a b w h ctx = ctx\<lparr>painted := painted ctx @ [ClearRect a b w h]\<rparr>"

definition beginPath :: "ctx2d \<Rightarrow> ctx2d" where
  "beginPath ctx = ctx\<lparr>path := []\<rparr>"

definition moveTo :: "real \<Rightarrow> real \<Rightarrow> ctx2d \<Rightarrow> ctx2d" where
  "moveTo a b ctx = ctx\<lparr>path := path ctx @ [MoveTo a b]\<rparr>"

definition lineTo :: "real \<Rightarrow> real \<Rightarrow> ctx2d \<Rightarrow> ctx2d" where
  "lineTo a b ctx = ctx\<lparr>path := path ctx @ [LineTo a b]\<rparr>"

definition stroke :: "ctx2d \<Rightarrow> ctx2d" where
  "stroke ctx =
     ctx\<lparr>painted := painted ctx @
        [Stroke \<lparr>s_path = path ctx, s_composite = globalCompositeOperation ctx,
                 s_style = strokeStyle ctx, s_width = lineWidth ctx,
                 s_cap = lineCap ctx, s_join = lineJoin ctx\<rparr>]\<rparr>"

text \<open>
  \<^verbatim>\<open>drawPath\<close>, the helper inside \<^verbatim>\<open>renderDrawings\<close>. It closes over the canvas (here its
  width \<open>W\<close> and height \<open>H\<close>) and the context, which is passed through. The \<^verbatim>\<open>for\<close> loop
  runs over the indices 1 to \<^verbatim>\<open>points.length - 1\<close>.
\<close>

definition drawPath :: "real \<Rightarrow> real \<Rightarrow> point list \<Rightarrow> string \<Rightarrow> real \<Rightarrow> ctx2d \<Rightarrow> ctx2d" where
  "drawPath W H pts c width ctx =
     (if length pts < 2 then ctx
      else
        let c1 = beginPath ctx;
            c2 = moveTo (px (pts ! 0) * W) (py (pts ! 0) * H) c1;
            c3 = foldl (\<lambda>cx i. lineTo (px (pts ! i) * W) (py (pts ! i) * H) cx) c2
                   [1..<length pts];
            c4 = (if c = ''eraser''
                  then c3\<lparr>globalCompositeOperation := ''destination-out'', lineWidth := 20\<rparr>
                  else c3\<lparr>globalCompositeOperation := ''source-over'', strokeStyle := c,
                          lineWidth := width\<rparr>);
            c5 = c4\<lparr>lineCap := ''round'', lineJoin := ''round''\<rparr>;
            c6 = stroke c5
        in c6\<lparr>globalCompositeOperation := ''source-over''\<rparr>)"

text \<open>
  \<^verbatim>\<open>renderDrawings(canvas, pageNum)\<close>: the canvas may be \<^verbatim>\<open>null\<close>, and so may its context;
  the result is the canvas afterwards.
\<close>

definition renderDrawings :: "viewer \<Rightarrow> canvas option \<Rightarrow> nat \<Rightarrow> canvas option" where
  "renderDrawings s cv pageNum =
     (case cv of
        None \<Rightarrow> None
      | Some cnv \<Rightarrow>
          (case context2d cnv of
             None \<Rightarrow> Some cnv
           | Some ctx \<Rightarrow>
               let c0 = clearRect 0 0 (canvas_width cnv) (canvas_height cnv) ctx;
                   pageDrawings = or_empty (drawings s) pageNum
               in Some (cnv\<lparr>context2d := Some
                    (foldl (\<lambda>cx d. drawPath (canvas_width cnv) (canvas_height cnv)
                                      (points d) (color d) (strokeWidth d) cx)
                       c0 pageDrawings)\<rparr>)))"

text \<open>
  The effect of \<^verbatim>\<open>DrawingCanvas\<close>, from the call of \<^verbatim>\<open>renderDrawings\<close> on: the committed
  strokes, then the path in progress on top. (Before that the effect gives the canvas
  the size of its parent element; \<open>cnv\<close> is the canvas after that step.) The parent
  passes \<^verbatim>\<open>currentPath.length > 0\<close> for \<^verbatim>\<open>isDrawingCurrent\<close>.
\<close>

definition renderCurrentPath :: "bool \<Rightarrow> point list \<Rightarrow> string \<Rightarrow> canvas \<Rightarrow> canvas" where
  "renderCurrentPath isDrawingCurrent cur pen cnv =
     (if isDrawingCurrent \<and> length cur > 1 then
        (case context2d cnv of
           None \<Rightarrow> cnv
         | Some ctx \<Rightarrow>
             let c1 = beginPath ctx;
                 c2 = moveTo (px (cur ! 0) * canvas_width cnv) (py (cur ! 0) * canvas_height cnv) c1;
                 c3 = foldl (\<lambda>cx i. lineTo (px (cur ! i) * canvas_width cnv)
                                        (py (cur ! i) * canvas_height cnv) cx) c2
                        [1..<length cur];
                 c4 = (if pen = ''eraser''
                       then c3\<lparr>globalCompositeOperation := ''destination-out'', lineWidth := 20\<rparr>
                       else c3\<lparr>globalCompositeOperation := ''source-over'', strokeStyle := pen,
                               lineWidth := 4\<rparr>);
                 c5 = c4\<lparr>lineCap := ''round'', lineJoin := ''round''\<rparr>;
                 c6 = stroke c5
             in cnv\<lparr>context2d := Some (c6\<lparr>globalCompositeOperation := ''source-over''\<rparr>)\<rparr>)
      else cnv)"

definition DrawingCanvas_effect :: "viewer \<Rightarrow> canvas \<Rightarrow> nat \<Rightarrow> canvas" where
  "DrawingCanvas_effect s cnv pageNum =
     (case renderDrawings s (Some cnv) pageNum of
        None \<Rightarrow> cnv
      | Some cnv1 \<Rightarrow>
          renderCurrentPath (length (currentPath s) > 0) (currentPath s) (penColor s) cnv1)"

text \<open>A context as the browser creates it, and a canvas of a given size around it.\<close>

definition fresh_ctx :: ctx2d where
  "fresh_ctx =
     \<lparr>globalCompositeOperation = ''source-over'', strokeStyle = ''#000000'', lineWidth = 1,
      lineCap = ''butt'', lineJoin = ''miter'', path = [], painted = []\<rparr>"

definition fresh_canvas :: "real \<Rightarrow> real \<Rightarrow> canvas" where
  "fresh_canvas W H = \<lparr>canvas_width = W, canvas_height = H, context2d = Some fresh_ctx\<rparr>"

section \<open>Gestures\<close>

text \<open>
  One stroke as the user draws it on the canvas of page \<open>p\<close>: a colour is picked, the
  button goes down, the pointer moves, the button goes up at time \<open>g_now\<close>.
\<close>

record gesture =
  g_color :: string
  g_down :: mouse_event
  g_moves :: "mouse_event list"
  g_now :: nat

definition draw_stroke :: "nat \<Rightarrow> viewer \<Rightarrow> gesture \<Rightarrow> viewer" where
  "draw_stroke p s g =
     handleEnd p (g_now g)
       (foldl (\<lambda>st e. handleMouseMove e st)
          (handleMouseDown (g_down g) p (setPenColor (g_color g) s)) (g_moves g))"

text \<open>The stroke such a gesture is meant to commit.\<close>

definition stroke_of :: "gesture \<Rightarrow> drawing" where
  "stroke_of g =
     newDrawing (g_now g) (g_color g) (event_point (g_down g) # map event_point (g_moves g))"

text \<open>What the three maps hold for one page.\<close>

definition page_state ::
  "viewer \<Rightarrow> nat \<Rightarrow> drawing list option \<times> drawing list list option \<times> drawing list list option" where
  "page_state s q = (drawings s q, history s q, future s q)"

text \<open>
  The pixel the specification assigns to a normalized point on a surface of width \<open>W\<close>
  and height \<open>H\<close>: \<^verbatim>\<open>(x*W, y*H)\<close>.
\<close>

definition spec_pixel :: "real \<Rightarrow> real \<Rightarrow> point \<Rightarrow> real \<times> real" where
  "spec_pixel W H q = (px q * W, py q * H)"

text \<open>The vertices a painting call was given: those of its path, none for \<^verbatim>\<open>clearRect\<close>.\<close>

fun cmd_xy :: "path_cmd \<Rightarrow> real \<times> real" where
  "cmd_xy (MoveTo a b) = (a, b)"
| "cmd_xy (LineTo a b) = (a, b)"

fun op_xy :: "paint_op \<Rightarrow> (real \<times> real) list" where
  "op_xy (ClearRect a b w h) = []"
| "op_xy (Stroke call) = map cmd_xy (s_path call)"

definition canvas_painted :: "canvas \<Rightarrow> paint_op list" where
  "canvas_painted cnv = (case context2d cnv of None \<Rightarrow> [] | Some ctx \<Rightarrow> painted ctx)"

text \<open>
  The path \<^verbatim>\<open>drawPath\<close> builds for a stroke: \<^verbatim>\<open>moveTo\<close> the first point, \<^verbatim>\<open>lineTo\<close> each
  further one, every coordinate multiplied by the size of the canvas.
\<close>

definition scaled_path :: "real \<Rightarrow> real \<Rightarrow> point list \<Rightarrow> path_cmd list" where
  "scaled_path W H pts =
     MoveTo (px (hd pts) * W) (py (hd pts) * H) # map (\<lambda>q. LineTo (px q * W) (py q * H)) (tl pts)"

text \<open>
  The trace of painting calls on a canvas after \<^verbatim>\<open>renderDrawings\<close> has painted a page
  on it.
\<close>

definition render_trace :: "viewer \<Rightarrow> canvas \<Rightarrow> nat \<Rightarrow> paint_op list" where
  "render_trace s cnv pageNum =
     (case renderDrawings s (Some cnv) pageNum of
        None \<Rightarrow> []
      | Some cnv1 \<Rightarrow> canvas_painted cnv1)"

text \<open>
  What the specification asks of the painting call made for a stroke \<open>d\<close> on a surface
  of width \<open>W\<close> and height \<open>H\<close>: it is a \<^verbatim>\<open>stroke\<close> along the path of the stroke; for
  the eraser the blend is \<^verbatim>\<open>destination-out\<close> and the width the fixed 20, for any other
  colour the blend is \<^verbatim>\<open>source-over\<close> with the colour and the width of the stroke
  itself; caps and joins are round.
\<close>

fun paints_as :: "real \<Rightarrow> real \<Rightarrow> drawing \<Rightarrow> paint_op \<Rightarrow> bool" where
  "paints_as W H d (ClearRect a b w h) = False"
| "paints_as W H d (Stroke call) =
     (s_path call = scaled_path W H (points d) \<and>
      (if color d = ''eraser''
       then s_composite call = ''destination-out'' \<and> s_width call = 20
       else s_composite call = ''source-over'' \<and> s_style call = color d \<and>
            s_width call = strokeWidth d) \<and>
      s_cap call = ''round'' \<and> s_join call = ''round'')"

section \<open>Example inputs\<close>

text \<open>A viewer in drawing mode on page 1, and pointer events on a canvas of 600 by 800.\<close>

definition drawing_viewer :: viewer where
  "drawing_viewer = toggleDrawingMode initial_viewer"

definition pointer_at :: "real \<Rightarrow> real \<Rightarrow> mouse_event" where
  "pointer_at a b =
     \<lparr>clientX = a, clientY = b, rect_left = 0, rect_top = 0,
      rect_width = 600, rect_height = 800\<rparr>"

definition gesture_A :: gesture where
  "gesture_A =
     \<lparr>g_color = ''#ff0000'', g_down = pointer_at 0 0, g_moves = [pointer_at 600 800],
      g_now = 1\<rparr>"

definition gesture_B :: gesture where
  "gesture_B =
     \<lparr>g_color = ''eraser'', g_down = pointer_at 120 160, g_moves = [pointer_at 480 640],
      g_now = 2\<rparr>"

text \<open>A stroke from the centre of the canvas of 600 by 800 to its lower right corner.\<close>

definition gesture_C :: gesture where
  "gesture_C =
     \<lparr>g_color = ''#3b82f6'', g_down = pointer_at 300 400, g_moves = [pointer_at 600 800],
      g_now = 3\<rparr>"

section \<open>Strokes drawn one after the other\<close>

text \<open>
  In drawing mode a gesture commits its stroke: the button going down starts the path
  with one point, each move adds one, and the end of the gesture takes the snapshot and
  appends the stroke.
\<close>

lemma moves_drawing:
  "isDrawingMode s \<Longrightarrow> currentPath s \<noteq> [] \<Longrightarrow>
   foldl (\<lambda>st e. handleMouseMove e st) s ms = s\<lparr>currentPath := currentPath s @ map event_point ms\<rparr>"
  by (induction ms arbitrary: s) (simp_all add: handleMouseMove_def)

lemma draw_stroke_eq:
  "isDrawingMode s \<Longrightarrow>
   draw_stroke p s g =
     s\<lparr>penColor := g_color g, currentPath := [],
       history := (history s)(p \<mapsto> or_empty (history s) p @ [or_empty (drawings s) p]),
       future := (future s)(p \<mapsto> []),
       drawings := (drawings s)(p \<mapsto> or_empty (drawings s) p @ [stroke_of g])\<rparr>"
  by (simp add: draw_stroke_def moves_drawing handleMouseDown_def setPenColor_def
        handleEnd_def saveHistory_def stroke_of_def Let_def)

lemma draw_strokes_mode:
  "isDrawingMode s \<Longrightarrow> isDrawingMode (foldl (draw_stroke p) s gs) \<and>
     activePage (foldl (draw_stroke p) s gs) = activePage s"
  by (induction gs arbitrary: s) (simp_all add: draw_stroke_eq)

lemma draw_strokes_drawings:
  "isDrawingMode s \<Longrightarrow>
   or_empty (drawings (foldl (draw_stroke p) s gs)) p = or_empty (drawings s) p @ map stroke_of gs"
  by (induction gs arbitrary: s) (simp_all add: draw_stroke_eq or_empty_def)

lemma draw_strokes_history:
  "isDrawingMode s \<Longrightarrow>
   or_empty (history (foldl (draw_stroke p) s gs)) p =
     or_empty (history s) p @
       map (\<lambda>k. or_empty (drawings s) p @ map stroke_of (take k gs)) [0..<length gs]"
proof (induction gs arbitrary: s)
  case Nil
  then show ?case by simp
next
  case (Cons g gs)
  have "[0..<length (g # gs)] = 0 # map Suc [0..<length gs]"
    by (simp add: upt_conv_Cons map_Suc_upt del: upt_Suc)
  with Cons show ?case
    by (simp add: draw_stroke_eq or_empty_def comp_def del: upt_Suc)
qed

lemma draw_strokes_defined:
  "isDrawingMode s \<Longrightarrow> gs \<noteq> [] \<Longrightarrow>
   drawings (foldl (draw_stroke p) s gs) p \<noteq> None \<and>
   future (foldl (draw_stroke p) s gs) p \<noteq> None"
proof (induction gs arbitrary: s rule: rev_induct)
  case Nil
  then show ?case by simp
next
  case (snoc g gs)
  have "isDrawingMode (foldl (draw_stroke p) s gs)"
    using snoc.prems(1) draw_strokes_mode by blast
  then show ?case by (simp add: draw_stroke_eq)
qed

section \<open>Undo and redo as inverse steps\<close>

lemma undo_step:
  "or_empty (history s) (activePage s) = H @ [h] \<Longrightarrow>
   undo s = s\<lparr>future := (future s)(activePage s \<mapsto>
                 or_empty (future s) (activePage s) @ [or_empty (drawings s) (activePage s)]),
             history := (history s)(activePage s \<mapsto> H),
             drawings := (drawings s)(activePage s \<mapsto> h)\<rparr>"
  by (simp add: undo_def)

lemma undo_n_drawings:
  "or_empty (history s) (activePage s) = H @ h # hs \<Longrightarrow>
   or_empty (drawings ((undo ^^ Suc (length hs)) s)) (activePage s) = h \<and>
   activePage ((undo ^^ Suc (length hs)) s) = activePage s"
proof (induction hs arbitrary: s rule: rev_induct)
  case Nil
  then show ?case using undo_step [of s H h] by (simp add: or_empty_def)
next
  case (snoc x xs)
  have st: "undo s = s\<lparr>future := (future s)(activePage s \<mapsto>
                 or_empty (future s) (activePage s) @ [or_empty (drawings s) (activePage s)]),
             history := (history s)(activePage s \<mapsto> H @ h # xs),
             drawings := (drawings s)(activePage s \<mapsto> x)\<rparr>"
    using undo_step [of s "H @ h # xs" x] snoc.prems by simp
  have "or_empty (history (undo s)) (activePage (undo s)) = H @ h # xs"
    by (simp add: st or_empty_def)
  from snoc.IH [OF this] have
    "or_empty (drawings ((undo ^^ Suc (length xs)) (undo s))) (activePage (undo s)) = h"
    "activePage ((undo ^^ Suc (length xs)) (undo s)) = activePage (undo s)"
    by simp_all
  moreover have "activePage (undo s) = activePage s" by (simp add: st)
  moreover have "(undo ^^ Suc (length (xs @ [x]))) s = (undo ^^ Suc (length xs)) (undo s)"
    by (simp add: funpow_swap1)
  ultimately show ?case by simp
qed

lemma redo_undo:
  "or_empty (history s) (activePage s) \<noteq> [] \<Longrightarrow>
   drawings s (activePage s) \<noteq> None \<Longrightarrow> future s (activePage s) \<noteq> None \<Longrightarrow>
   redo (undo s) = s"
  by (cases "history s (activePage s)")
     (auto simp add: undo_def redo_def or_empty_def Let_def fun_upd_idem)

lemma undo_keeps:
  "or_empty (history s) (activePage s) \<noteq> [] \<Longrightarrow>
   activePage (undo s) = activePage s \<and>
   drawings (undo s) (activePage s) \<noteq> None \<and> future (undo s) (activePage s) \<noteq> None \<and>
   length (or_empty (history (undo s)) (activePage s)) = length (or_empty (history s) (activePage s)) - 1"
  by (simp add: undo_def Let_def or_empty_def)

lemma redo_undo_n:
  "n \<le> length (or_empty (history s) (activePage s)) \<Longrightarrow>
   drawings s (activePage s) \<noteq> None \<Longrightarrow> future s (activePage s) \<noteq> None \<Longrightarrow>
   (redo ^^ n) ((undo ^^ n) s) = s"
proof (induction n arbitrary: s)
  case 0
  then show ?case by simp
next
  case (Suc n)
  have ne: "or_empty (history s) (activePage s) \<noteq> []" using Suc.prems(1) by auto
  note k = undo_keeps [OF ne]
  have "(redo ^^ n) ((undo ^^ n) (undo s)) = undo s"
    using Suc.prems(1) k by (intro Suc.IH) simp_all
  then have "(redo ^^ Suc n) ((undo ^^ Suc n) s) = redo (undo s)"
    by (simp add: funpow_swap1)
  then show ?case using redo_undo [OF ne Suc.prems(2) Suc.prems(3)] by simp
qed

section \<open>The path and the settings of a painted stroke\<close>

lemma nth_from_one: "map ((!) xs) [Suc 0..<length xs] = tl xs"
proof (cases xs)
  case Nil
  then show ?thesis by simp
next
  case (Cons a as)
  have "map ((!) (a # as)) [Suc 0..<Suc (length as)] = map ((!) as) [0..<length as]"
    by (simp add: map_Suc_upt [symmetric] del: upt_Suc)
  then show ?thesis by (simp add: Cons map_nth del: upt_Suc)
qed

lemma lineTo_fold:
  "foldl (\<lambda>cx i. lineTo (f i) (g i) cx) c ns = c\<lparr>path := path c @ map (\<lambda>i. LineTo (f i) (g i)) ns\<rparr>"
  by (induction ns arbitrary: c) (simp_all add: lineTo_def)

lemma lineTo_loop:
  "foldl (\<lambda>cx i. lineTo (px (pts ! i) * W) (py (pts ! i) * H) cx) c [Suc 0..<length pts] =
     c\<lparr>path := path c @ map (\<lambda>q. LineTo (px q * W) (py q * H)) (tl pts)\<rparr>"
proof -
  have "map (\<lambda>i. LineTo (px (pts ! i) * W) (py (pts ! i) * H)) [Suc 0..<length pts] =
        map (\<lambda>q. LineTo (px q * W) (py q * H)) (map ((!) pts) [Suc 0..<length pts])"
    by (simp add: comp_def)
  then show ?thesis by (simp add: lineTo_fold nth_from_one)
qed

lemma scaled_path_xy: "pts \<noteq> [] \<Longrightarrow> map cmd_xy (scaled_path W H pts) = map (spec_pixel W H) pts"
  by (cases pts) (simp_all add: scaled_path_def spec_pixel_def)

lemma drawPath_long:
  "2 \<le> length pts \<Longrightarrow>
   drawPath W H pts c width ctx =
     ctx\<lparr>globalCompositeOperation := ''source-over'',
         strokeStyle := (if c = ''eraser'' then strokeStyle ctx else c),
         lineWidth := (if c = ''eraser'' then 20 else width),
         lineCap := ''round'', lineJoin := ''round'',
         path := scaled_path W H pts,
         painted := painted ctx @
           [Stroke \<lparr>s_path = scaled_path W H pts,
                    s_composite = (if c = ''eraser'' then ''destination-out'' else ''source-over''),
                    s_style = (if c = ''eraser'' then strokeStyle ctx else c),
                    s_width = (if c = ''eraser'' then 20 else width),
                    s_cap = ''round'', s_join = ''round''\<rparr>]\<rparr>"
proof -
  assume len: "2 \<le> length pts"
  then have "pts \<noteq> []" by auto
  then have "pts ! 0 = hd pts" by (simp add: hd_conv_nth)
  with len show ?thesis
    by (simp add: drawPath_def lineTo_loop beginPath_def moveTo_def stroke_def scaled_path_def
          Let_def del: upt_Suc)
qed

lemma drawPath_short: "length pts < 2 \<Longrightarrow> drawPath W H pts c width ctx = ctx"
  by (simp add: drawPath_def)

lemma renderCurrentPath_long:
  assumes "2 \<le> length cur" and "context2d cnv = Some ctx"
  shows "renderCurrentPath True cur pen cnv =
     cnv\<lparr>context2d := Some (drawPath (canvas_width cnv) (canvas_height cnv) cur pen 4 ctx)\<rparr>"
proof -
  have "Suc 0 < length cur" "\<not> length cur < 2" using assms(1) by auto
  then show ?thesis
    by (simp add: renderCurrentPath_def drawPath_def Let_def assms(2) del: upt_Suc)
qed

section \<open>The trace of a rendered page\<close>

lemma drawPath_xy:
  "map op_xy (painted (drawPath W H pts c width ctx)) =
     map op_xy (painted ctx) @ (if length pts < 2 then [] else [map (spec_pixel W H) pts])"
proof (cases "length pts < 2")
  case True
  then show ?thesis by (simp add: drawPath_short)
next
  case False
  then have "2 \<le> length pts" "pts \<noteq> []" by auto
  then show ?thesis by (simp add: drawPath_long scaled_path_xy)
qed

lemma forEach_xy:
  "map op_xy (painted (foldl (\<lambda>cx d. drawPath W H (points d) (color d) (strokeWidth d) cx) c ds)) =
     map op_xy (painted c) @
       map (\<lambda>d. map (spec_pixel W H) (points d)) (filter (\<lambda>d. 2 \<le> length (points d)) ds)"
proof (induction ds arbitrary: c)
  case Nil
  then show ?case by simp
next
  case (Cons d ds)
  show ?case
    by (cases "length (points d) < 2") (simp_all add: Cons.IH drawPath_xy not_less)
qed

lemma forEach_paints:
  "\<exists>ops. painted (foldl (\<lambda>cx d. drawPath W H (points d) (color d) (strokeWidth d) cx) c ds) =
            painted c @ ops \<and>
          list_all2 (paints_as W H) (filter (\<lambda>d. 2 \<le> length (points d)) ds) ops"
proof (induction ds arbitrary: c)
  case Nil
  then show ?case by simp
next
  case (Cons d ds)
  let ?c' = "drawPath W H (points d) (color d) (strokeWidth d) c"
  obtain ops where ops:
    "painted (foldl (\<lambda>cx d. drawPath W H (points d) (color d) (strokeWidth d) cx) ?c' ds) =
       painted ?c' @ ops"
    "list_all2 (paints_as W H) (filter (\<lambda>d. 2 \<le> length (points d)) ds) ops"
    using Cons.IH [of ?c'] by blast
  show ?case
  proof (cases "length (points d) < 2")
    case True
    then show ?thesis using ops by (simp add: drawPath_short)
  next
    case False
    then have long: "2 \<le> length (points d)" by simp
    obtain call where call: "painted ?c' = painted c @ [Stroke call]"
      "paints_as W H d (Stroke call)"
      by (simp add: drawPath_long [OF long])
    have "list_all2 (paints_as W H) (filter (\<lambda>d. 2 \<le> length (points d)) (d # ds))
            (Stroke call # ops)"
      using long call(2) ops(2) by simp
    moreover have
      "painted (foldl (\<lambda>cx d. drawPath W H (points d) (color d) (strokeWidth d) cx) c (d # ds)) =
         painted c @ Stroke call # ops"
      using ops(1) call(1) by simp
    ultimately show ?thesis by blast
  qed
qed

lemma renderDrawings_ctx:
  "context2d cnv = Some ctx \<Longrightarrow>
   renderDrawings s (Some cnv) p =
     Some (cnv\<lparr>context2d := Some
       (foldl (\<lambda>cx d. drawPath (canvas_width cnv) (canvas_height cnv)
                         (points d) (color d) (strokeWidth d) cx)
          (clearRect 0 0 (canvas_width cnv) (canvas_height cnv) ctx)
          (or_empty (drawings s) p))\<rparr>)"
  by (simp add: renderDrawings_def Let_def)

lemma render_trace_ctx:
  "context2d cnv = Some ctx \<Longrightarrow>
   render_trace s cnv p =
     painted (foldl (\<lambda>cx d. drawPath (canvas_width cnv) (canvas_height cnv)
                         (points d) (color d) (strokeWidth d) cx)
          (clearRect 0 0 (canvas_width cnv) (canvas_height cnv) ctx)
          (or_empty (drawings s) p))"
  by (simp add: render_trace_def renderDrawings_ctx canvas_painted_def)

lemma live_path_xy:
  assumes "context2d cnv = Some ctx"
  shows "map op_xy (canvas_painted (renderCurrentPath (length cur > 0) cur pen cnv)) =
        map op_xy (painted ctx) @
          (if length cur < 2 then []
           else [map (spec_pixel (canvas_width cnv) (canvas_height cnv)) cur])"
proof (cases "length cur < 2")
  case True
  then show ?thesis by (simp add: renderCurrentPath_def canvas_painted_def assms)
next
  case False
  then have "2 \<le> length cur" "cur \<noteq> []" by auto
  then show ?thesis
    by (simp add: renderCurrentPath_long [OF _ assms] canvas_painted_def drawPath_long scaled_path_xy)
qed

lemma effect_xy:
  assumes "context2d cnv = Some ctx"
  shows "map op_xy (canvas_painted (DrawingCanvas_effect s cnv p)) =
     map op_xy (render_trace s cnv p) @
       (if length (currentPath s) < 2 then []
        else [map (spec_pixel (canvas_width cnv) (canvas_height cnv)) (currentPath s)])"
proof -
  define c1 where "c1 = foldl (\<lambda>cx d. drawPath (canvas_width cnv) (canvas_height cnv)
                         (points d) (color d) (strokeWidth d) cx)
          (clearRect 0 0 (canvas_width cnv) (canvas_height cnv) ctx)
          (or_empty (drawings s) p)"
  have r: "renderDrawings s (Some cnv) p = Some (cnv\<lparr>context2d := Some c1\<rparr>)"
    by (simp add: renderDrawings_ctx [OF assms] c1_def)
  have t: "render_trace s cnv p = painted c1"
    by (simp add: render_trace_ctx [OF assms] c1_def)
  have "context2d (cnv\<lparr>context2d := Some c1\<rparr>) = Some c1" by simp
  from live_path_xy [OF this, of "currentPath s" "penColor s"] show ?thesis
    by (simp add: DrawingCanvas_effect_def r t)
qed

section \<open>The example inputs, evaluated\<close>

lemma drawing_viewer_simps:
  "isDrawingMode drawing_viewer" "activePage drawing_viewer = 1"
  "drawings drawing_viewer = Map.empty" "history drawing_viewer = Map.empty"
  "future drawing_viewer = Map.empty" "currentPath drawing_viewer = []"
  "penColor drawing_viewer = ''#ef4444''"
  by (simp_all add: drawing_viewer_def toggleDrawingMode_def initial_viewer_def COLORS_def)

lemma drawing_viewer_A:
  "draw_stroke (Suc 0) drawing_viewer gesture_A =
     drawing_viewer\<lparr>penColor := ''#ff0000'', history := [Suc 0 \<mapsto> [[]]],
        future := [Suc 0 \<mapsto> []], drawings := [Suc 0 \<mapsto> [stroke_of gesture_A]]\<rparr>"
  by (simp add: draw_stroke_eq drawing_viewer_simps or_empty_def gesture_A_def)

lemma two_page_viewer:
  "draw_stroke (Suc 0) (draw_stroke 2 drawing_viewer gesture_B) gesture_A =
     drawing_viewer\<lparr>penColor := ''#ff0000'',
        history := [2 \<mapsto> [[]], Suc 0 \<mapsto> [[]]],
        future := [2 \<mapsto> [], Suc 0 \<mapsto> []],
        drawings := [2 \<mapsto> [stroke_of gesture_B], Suc 0 \<mapsto> [stroke_of gesture_A]]\<rparr>"
  by (simp add: draw_stroke_eq drawing_viewer_simps or_empty_def gesture_A_def gesture_B_def)

lemma gesture_C_viewer:
  "draw_stroke (Suc 0) drawing_viewer gesture_C =
     drawing_viewer\<lparr>penColor := ''#3b82f6'', history := [Suc 0 \<mapsto> [[]]],
        future := [Suc 0 \<mapsto> []], drawings := [Suc 0 \<mapsto> [stroke_of gesture_C]]\<rparr>"
  by (simp add: draw_stroke_eq drawing_viewer_simps or_empty_def gesture_C_def)

lemma click_viewer:
  "handleEnd (Suc 0) 42 (handleMouseDown (pointer_at 300 400) (Suc 0) drawing_viewer) =
     drawing_viewer\<lparr>history := [Suc 0 \<mapsto> [[]]], future := [Suc 0 \<mapsto> []],
        drawings := [Suc 0 \<mapsto> [newDrawing 42 ''#ef4444'' [\<lparr>px = 0.5, py = 0.5\<rparr>]]]\<rparr>"
  by (simp add: handleEnd_def handleMouseDown_def saveHistory_def drawing_viewer_simps
        or_empty_def event_point_def pointer_at_def Let_def)

lemma two_strokes_viewer:
  "draw_stroke (Suc 0) (draw_stroke (Suc 0) drawing_viewer gesture_A) gesture_B =
     drawing_viewer\<lparr>penColor := ''eraser'', history := [Suc 0 \<mapsto> [[], [stroke_of gesture_A]]],
        future := [Suc 0 \<mapsto> []],
        drawings := [Suc 0 \<mapsto> [stroke_of gesture_A, stroke_of gesture_B]]\<rparr>"
  by (simp add: draw_stroke_eq drawing_viewer_simps or_empty_def gesture_A_def gesture_B_def)

section \<open>Undo and redo of a sequence of commits\<close>

text \<open>
  C1. On a page \<open>p\<close> that is the active page and whose live stroke sequence is empty,
  let \<open>N\<close> strokes be drawn and committed one after the other. The live sequence of the
  page is then the \<open>N\<close> strokes in the order they were drawn; \<open>N\<close> calls of undo
  return it to the empty sequence; \<open>N\<close> calls of redo after that restore the state
  reached after the last commit, with the \<open>N\<close> strokes in their order.
\<close>

theorem undo_all_redo_all:
  assumes "isDrawingMode s0" and "activePage s0 = p" and "or_empty (drawings s0) p = []"
  shows "or_empty (drawings (foldl (draw_stroke p) s0 gs)) p = map stroke_of gs \<and>
         or_empty (drawings ((undo ^^ length gs) (foldl (draw_stroke p) s0 gs))) p = [] \<and>
         (redo ^^ length gs) ((undo ^^ length gs) (foldl (draw_stroke p) s0 gs)) =
           foldl (draw_stroke p) s0 gs"
proof (cases gs)
  case Nil
  then show ?thesis using assms by simp
next
  case (Cons g gs')
  define s1 where "s1 = foldl (draw_stroke p) s0 gs"
  have ap: "activePage s1 = p"
    using draw_strokes_mode [OF assms(1), of p gs] assms(2) by (simp add: s1_def)
  have dr: "or_empty (drawings s1) p = map stroke_of gs"
    using draw_strokes_drawings [OF assms(1), of p gs] assms(3) by (simp add: s1_def)
  have "[0..<length gs] = 0 # [Suc 0..<length gs]"
    using Cons by (simp add: upt_conv_Cons del: upt_Suc)
  then have hi: "or_empty (history s1) (activePage s1) =
      or_empty (history s0) p @ [] #
        map (\<lambda>k. map stroke_of (take k gs)) [Suc 0..<length gs]"
    using draw_strokes_history [OF assms(1), of p gs] assms(3) ap by (simp add: s1_def)
  have len: "Suc (length (map (\<lambda>k. map stroke_of (take k gs)) [Suc 0..<length gs])) = length gs"
    by (simp add: Cons del: upt_Suc)
  have un: "or_empty (drawings ((undo ^^ length gs) s1)) p = []"
    using undo_n_drawings [OF hi] ap unfolding len by simp
  have "length gs \<le> length (or_empty (history s1) (activePage s1))"
    by (simp add: hi)
  moreover have "drawings s1 (activePage s1) \<noteq> None" "future s1 (activePage s1) \<noteq> None"
    using draw_strokes_defined [OF assms(1), of gs p] Cons ap by (simp_all add: s1_def)
  ultimately have "(redo ^^ length gs) ((undo ^^ length gs) s1) = s1"
    by (rule redo_undo_n)
  with dr un show ?thesis by (simp add: s1_def)
qed

theorem undo_all_redo_all_witness:
  "isDrawingMode drawing_viewer \<and> activePage drawing_viewer = 1 \<and>
   or_empty (drawings drawing_viewer) 1 = [] \<and>
   or_empty (drawings (foldl (draw_stroke 1) drawing_viewer [gesture_A, gesture_B])) 1 =
     [stroke_of gesture_A, stroke_of gesture_B] \<and>
   or_empty (drawings ((undo ^^ 2) (foldl (draw_stroke 1) drawing_viewer [gesture_A, gesture_B]))) 1 = [] \<and>
   (redo ^^ 2) ((undo ^^ 2) (foldl (draw_stroke 1) drawing_viewer [gesture_A, gesture_B])) =
     foldl (draw_stroke 1) drawing_viewer [gesture_A, gesture_B]"
  using undo_all_redo_all [of drawing_viewer 1 "[gesture_A, gesture_B]"]
  by (simp add: drawing_viewer_simps or_empty_def numeral_2_eq_2)

section \<open>Undo and redo on an empty stack\<close>

text \<open>
  C2. Undo on the active page when the history stack of that page is empty returns the
  state as it is: the live strokes, the history stack and the future stack are unchanged.
  Redo with an empty future stack does the same.
\<close>

theorem undo_redo_empty_stack_noop:
  "(or_empty (history s) (activePage s) = [] \<longrightarrow> undo s = s) \<and>
   (or_empty (future s) (activePage s) = [] \<longrightarrow> redo s = s)"
  by (simp add: undo_def redo_def)

theorem undo_redo_empty_stack_noop_witness:
  "or_empty (history initial_viewer) (activePage initial_viewer) = [] \<and>
   or_empty (future initial_viewer) (activePage initial_viewer) = [] \<and>
   undo initial_viewer = initial_viewer \<and> redo initial_viewer = initial_viewer"
  using undo_redo_empty_stack_noop [of initial_viewer]
  by (simp add: initial_viewer_def or_empty_def)

section \<open>Snapshots before a mutation\<close>

text \<open>
  C3. A stroke commit on page \<open>p\<close> (an end event in drawing mode with a path in
  progress) and a clear of the active page when it has strokes both push the live stroke
  sequence of the page, as it was before, onto the history stack of the page and leave
  its future stack empty; then the stroke is appended, or the page emptied.
\<close>

theorem commit_and_clear_snapshot:
  "(isDrawingMode s \<and> currentPath s \<noteq> [] \<longrightarrow>
      or_empty (history (handleEnd p t s)) p = or_empty (history s) p @ [or_empty (drawings s) p] \<and>
      or_empty (future (handleEnd p t s)) p = [] \<and>
      or_empty (drawings (handleEnd p t s)) p =
        or_empty (drawings s) p @ [newDrawing t (penColor s) (currentPath s)]) \<and>
   (or_empty (drawings s) (activePage s) \<noteq> [] \<longrightarrow>
      or_empty (history (clearPageDrawings s)) (activePage s) =
        or_empty (history s) (activePage s) @ [or_empty (drawings s) (activePage s)] \<and>
      or_empty (future (clearPageDrawings s)) (activePage s) = [] \<and>
      or_empty (drawings (clearPageDrawings s)) (activePage s) = [])"
  by (simp add: handleEnd_def clearPageDrawings_def saveHistory_def or_empty_def Let_def)

theorem commit_and_clear_snapshot_witness:
  "isDrawingMode (handleMouseDown (pointer_at 300 400) 1 (undo (draw_stroke 1 drawing_viewer gesture_A))) \<and>
   currentPath (handleMouseDown (pointer_at 300 400) 1 (undo (draw_stroke 1 drawing_viewer gesture_A))) \<noteq> [] \<and>
   or_empty (future (handleMouseDown (pointer_at 300 400) 1 (undo (draw_stroke 1 drawing_viewer gesture_A)))) 1
     = [[stroke_of gesture_A]] \<and>
   or_empty (future (handleEnd 1 3
      (handleMouseDown (pointer_at 300 400) 1 (undo (draw_stroke 1 drawing_viewer gesture_A))))) 1 = [] \<and>
   or_empty (history (handleEnd 1 3
      (handleMouseDown (pointer_at 300 400) 1 (undo (draw_stroke 1 drawing_viewer gesture_A))))) 1 = [[]] \<and>
   or_empty (drawings (draw_stroke 1 drawing_viewer gesture_A))
      (activePage (draw_stroke 1 drawing_viewer gesture_A)) \<noteq> [] \<and>
   or_empty (history (clearPageDrawings (draw_stroke 1 drawing_viewer gesture_A))) 1 =
      [[], [stroke_of gesture_A]] \<and>
   or_empty (future (clearPageDrawings (draw_stroke 1 drawing_viewer gesture_A))) 1 = [] \<and>
   or_empty (drawings (clearPageDrawings (draw_stroke 1 drawing_viewer gesture_A))) 1 = []"
  using commit_and_clear_snapshot
      [of "handleMouseDown (pointer_at 300 400) 1 (undo (draw_stroke 1 drawing_viewer gesture_A))" 1 3]
    commit_and_clear_snapshot [of "draw_stroke 1 drawing_viewer gesture_A" 1 3]
  by (simp add: drawing_viewer_A drawing_viewer_simps undo_def handleMouseDown_def or_empty_def)

section \<open>Clearing an empty page\<close>

text \<open>
  C4. When the live stroke sequence of the active page is empty, clearing the page
  returns the state as it is: the sequence stays empty, no snapshot is pushed, and the
  history and future stacks are unchanged.
\<close>

theorem clear_empty_page_noop:
  "or_empty (drawings s) (activePage s) = [] \<Longrightarrow> clearPageDrawings s = s"
  by (simp add: clearPageDrawings_def)

theorem clear_empty_page_noop_witness:
  "or_empty (drawings (undo (draw_stroke 1 drawing_viewer gesture_A)))
     (activePage (undo (draw_stroke 1 drawing_viewer gesture_A))) = [] \<and>
   clearPageDrawings (undo (draw_stroke 1 drawing_viewer gesture_A)) =
     undo (draw_stroke 1 drawing_viewer gesture_A) \<and>
   or_empty (history (clearPageDrawings (undo (draw_stroke 1 drawing_viewer gesture_A)))) 1 = [] \<and>
   or_empty (future (clearPageDrawings (undo (draw_stroke 1 drawing_viewer gesture_A)))) 1 =
     [[stroke_of gesture_A]]"
  using clear_empty_page_noop [of "undo (draw_stroke 1 drawing_viewer gesture_A)"]
  by (simp add: drawing_viewer_A drawing_viewer_simps undo_def or_empty_def)

section \<open>A begin event followed by an end event\<close>

text \<open>
  In drawing mode the begin event records its point, and the end event finds a path of
  one point, which it commits: on the example viewer the stroke appears in the store of
  page 1 and the empty sequence is pushed as a snapshot.
\<close>

theorem begin_end_no_commit_counterexample:
  "isDrawingMode drawing_viewer \<and>
   or_empty (drawings drawing_viewer) 1 = [] \<and>
   or_empty (history drawing_viewer) 1 = [] \<and>
   or_empty (drawings (handleEnd 1 42 (handleMouseDown (pointer_at 300 400) 1 drawing_viewer))) 1 =
     [\<lparr>drawing_id = ''draw-42'', color = ''#ef4444'', strokeWidth = 4,
       points = [\<lparr>px = 0.5, py = 0.5\<rparr>]\<rparr>] \<and>
   or_empty (history (handleEnd 1 42 (handleMouseDown (pointer_at 300 400) 1 drawing_viewer))) 1 =
     [[]]"
  by (simp add: drawing_viewer_simps handleEnd_def handleMouseDown_def saveHistory_def
        or_empty_def newDrawing_def event_point_def pointer_at_def string_of_nat.simps Let_def)

text \<open>
  C5, as the code has it. A begin event followed at once by an end event on page \<open>p\<close>:
  in drawing mode a stroke holding the one point of the begin event is appended to the
  drawing store of the page, after one snapshot of the page is pushed on its history
  stack; with drawing mode off nothing is appended, no snapshot is taken, and the state
  is unchanged.
\<close>

theorem begin_end_commits_dot:
  "(isDrawingMode s \<longrightarrow>
      or_empty (drawings (handleEnd p t (handleMouseDown e p s))) p =
        or_empty (drawings s) p @ [newDrawing t (penColor s) [event_point e]] \<and>
      or_empty (history (handleEnd p t (handleMouseDown e p s))) p =
        or_empty (history s) p @ [or_empty (drawings s) p]) \<and>
   (\<not> isDrawingMode s \<longrightarrow> handleEnd p t (handleMouseDown e p s) = s)"
  by (simp add: handleEnd_def handleMouseDown_def saveHistory_def or_empty_def Let_def)

theorem begin_end_commits_dot_witness:
  "isDrawingMode drawing_viewer \<and>
   or_empty (drawings (handleEnd 1 42 (handleMouseDown (pointer_at 300 400) 1 drawing_viewer))) 1 =
     [newDrawing 42 ''#ef4444'' [\<lparr>px = 0.5, py = 0.5\<rparr>]] \<and>
   or_empty (history (handleEnd 1 42 (handleMouseDown (pointer_at 300 400) 1 drawing_viewer))) 1 =
     [[]] \<and>
   \<not> isDrawingMode initial_viewer \<and>
   handleEnd 1 42 (handleMouseDown (pointer_at 300 400) 1 initial_viewer) = initial_viewer"
  using begin_end_commits_dot [of drawing_viewer 1 42 "pointer_at 300 400"]
    begin_end_commits_dot [of initial_viewer 1 42 "pointer_at 300 400"]
  by (simp add: drawing_viewer_simps or_empty_def event_point_def pointer_at_def
        initial_viewer_def)

section \<open>Drawing mode switched off during a capture\<close>

text \<open>
  With a path in progress and drawing mode switched off, the end event returns at its
  first test: the path is not committed, and the store and the history of the page stay
  empty on the example viewer.
\<close>

theorem frozen_capture_commit_counterexample:
  "isDrawingMode (handleMouseDown (pointer_at 300 400) 1 drawing_viewer) \<and>
   currentPath (toggleDrawingMode (handleMouseDown (pointer_at 300 400) 1 drawing_viewer)) =
     [\<lparr>px = 0.5, py = 0.5\<rparr>] \<and>
   or_empty (drawings (handleEnd 1 42
      (toggleDrawingMode (handleMouseDown (pointer_at 300 400) 1 drawing_viewer)))) 1 = [] \<and>
   or_empty (history (handleEnd 1 42
      (toggleDrawingMode (handleMouseDown (pointer_at 300 400) 1 drawing_viewer)))) 1 = []"
  by (simp add: drawing_viewer_simps handleEnd_def handleMouseDown_def toggleDrawingMode_def
        or_empty_def event_point_def pointer_at_def)

text \<open>
  C6, as the code has it. Once drawing mode is switched off, every move event is ignored
  (no point is appended), and an end or leave event that arrives while the mode is off is
  ignored as well: no stroke is committed and no snapshot is taken, the state stays as
  the switch left it.
\<close>

theorem frozen_capture:
  "isDrawingMode s \<Longrightarrow>
     foldl (\<lambda>st e. handleMouseMove e st) (toggleDrawingMode s) ms = toggleDrawingMode s \<and>
     handleEnd p t (foldl (\<lambda>st e. handleMouseMove e st) (toggleDrawingMode s) ms) =
       toggleDrawingMode s"
proof -
  assume "isDrawingMode s"
  then have off: "\<not> isDrawingMode (toggleDrawingMode s)"
    by (simp add: toggleDrawingMode_def)
  have "\<not> isDrawingMode u \<Longrightarrow> foldl (\<lambda>st e. handleMouseMove e st) u ms = u" for u
    by (induction ms) (simp_all add: handleMouseMove_def)
  with off show ?thesis by (simp add: handleEnd_def)
qed

theorem frozen_capture_witness:
  "isDrawingMode (handleMouseDown (pointer_at 300 400) 1 drawing_viewer) \<and>
   currentPath (handleMouseDown (pointer_at 300 400) 1 drawing_viewer) \<noteq> [] \<and>
   foldl (\<lambda>st e. handleMouseMove e st)
      (toggleDrawingMode (handleMouseDown (pointer_at 300 400) 1 drawing_viewer))
      [pointer_at 310 410, pointer_at 320 420] =
     toggleDrawingMode (handleMouseDown (pointer_at 300 400) 1 drawing_viewer) \<and>
   handleEnd 1 42 (foldl (\<lambda>st e. handleMouseMove e st)
      (toggleDrawingMode (handleMouseDown (pointer_at 300 400) 1 drawing_viewer))
      [pointer_at 310 410, pointer_at 320 420]) =
     toggleDrawingMode (handleMouseDown (pointer_at 300 400) 1 drawing_viewer)"
  using frozen_capture [of "handleMouseDown (pointer_at 300 400) 1 drawing_viewer"
      "[pointer_at 310 410, pointer_at 320 420]" 1 42]
  by (simp add: handleMouseDown_def handleEnd_def toggleDrawingMode_def drawing_viewer_simps)

section \<open>Normalized points on a surface of any size\<close>

text \<open>
  A click in drawing mode commits a stroke whose only point is \<open>(0.5, 0.5)\<close>. Painted
  on a canvas of 1200 by 1600, the page gets the \<^verbatim>\<open>clearRect\<close> and nothing else: the
  point is in the store and no pixel, \<open>(600, 800)\<close> or other, is painted for it.
\<close>

theorem single_point_not_painted_counterexample:
  "or_empty (drawings (handleEnd 1 42 (handleMouseDown (pointer_at 300 400) 1 drawing_viewer))) 1 =
     [\<lparr>drawing_id = ''draw-42'', color = ''#ef4444'', strokeWidth = 4,
       points = [\<lparr>px = 0.5, py = 0.5\<rparr>]\<rparr>] \<and>
   canvas_painted (DrawingCanvas_effect
       (handleEnd 1 42 (handleMouseDown (pointer_at 300 400) 1 drawing_viewer))
       (fresh_canvas 1200 1600) 1) =
     [ClearRect 0 0 1200 1600] \<and>
   (600, 800) \<notin> set (concat (map op_xy (canvas_painted (DrawingCanvas_effect
       (handleEnd 1 42 (handleMouseDown (pointer_at 300 400) 1 drawing_viewer))
       (fresh_canvas 1200 1600) 1))))"
  by (simp add: click_viewer DrawingCanvas_effect_def renderDrawings_def renderCurrentPath_def
        fresh_canvas_def fresh_ctx_def clearRect_def canvas_painted_def or_empty_def
        drawing_viewer_simps newDrawing_def drawPath_def string_of_nat.simps Let_def)

text \<open>
  C7, as the code has it. Painting page \<open>p\<close> on a canvas of width \<open>W\<close> and height
  \<open>H\<close>, the compositor clears the canvas and then hands over, for the strokes of the
  page that have two points or more, in the order of the store, the points of the
  stroke in their order, each \<open>(x, y)\<close> as \<open>(x * W, y * H)\<close>; the path in progress
  follows in the same way when it has two points or more. A stroke (or a path in
  progress) of fewer than two points is not painted. Nothing of the surface a point was
  recorded on enters: the stroke drawn from the centre of a surface of 600 by 800 starts
  at \<open>(0.5, 0.5)\<close>, and painted on a surface of 1200 by 1600 it starts at pixel
  \<open>(600, 800)\<close>.
\<close>

theorem normalized_replay:
  "(context2d cnv = Some ctx \<longrightarrow>
      map op_xy (render_trace s cnv p) =
        map op_xy (painted ctx) @ [] #
          map (\<lambda>d. map (spec_pixel (canvas_width cnv) (canvas_height cnv)) (points d))
            (filter (\<lambda>d. 2 \<le> length (points d)) (or_empty (drawings s) p)) \<and>
      map op_xy (canvas_painted (DrawingCanvas_effect s cnv p)) =
        map op_xy (render_trace s cnv p) @
          (if length (currentPath s) < 2 then []
           else [map (spec_pixel (canvas_width cnv) (canvas_height cnv)) (currentPath s)])) \<and>
   points (stroke_of gesture_C) = [\<lparr>px = 0.5, py = 0.5\<rparr>, \<lparr>px = 1, py = 1\<rparr>] \<and>
   map op_xy (render_trace (draw_stroke 1 drawing_viewer gesture_C) (fresh_canvas 1200 1600) 1) =
     [[], [(600, 800), (1200, 1600)]]"
proof (intro conjI impI)
  assume c: "context2d cnv = Some ctx"
  show "map op_xy (render_trace s cnv p) =
        map op_xy (painted ctx) @ [] #
          map (\<lambda>d. map (spec_pixel (canvas_width cnv) (canvas_height cnv)) (points d))
            (filter (\<lambda>d. 2 \<le> length (points d)) (or_empty (drawings s) p))"
    by (simp add: render_trace_ctx [OF c] forEach_xy clearRect_def)
  show "map op_xy (canvas_painted (DrawingCanvas_effect s cnv p)) =
        map op_xy (render_trace s cnv p) @
          (if length (currentPath s) < 2 then []
           else [map (spec_pixel (canvas_width cnv) (canvas_height cnv)) (currentPath s)])"
    by (rule effect_xy [OF c])
next
  show pts: "points (stroke_of gesture_C) = [\<lparr>px = 0.5, py = 0.5\<rparr>, \<lparr>px = 1, py = 1\<rparr>]"
    by (simp add: stroke_of_def newDrawing_def gesture_C_def event_point_def pointer_at_def)
  have "context2d (fresh_canvas 1200 1600) = Some fresh_ctx" by (simp add: fresh_canvas_def)
  then show "map op_xy (render_trace (draw_stroke 1 drawing_viewer gesture_C) (fresh_canvas 1200 1600) 1) =
     [[], [(600, 800), (1200, 1600)]]"
    by (simp add: render_trace_ctx drawPath_xy clearRect_def gesture_C_viewer or_empty_def pts
          spec_pixel_def fresh_canvas_def fresh_ctx_def)
qed

theorem normalized_replay_witness:
  "context2d (fresh_canvas 1200 1600) = Some fresh_ctx \<and>
   map op_xy (render_trace (handleMouseMove (pointer_at 150 600)
        (handleMouseDown (pointer_at 0 0) 1 (draw_stroke 1 drawing_viewer gesture_C)))
      (fresh_canvas 1200 1600) 1) = [[], [(600, 800), (1200, 1600)]] \<and>
   map op_xy (canvas_painted (DrawingCanvas_effect (handleMouseMove (pointer_at 150 600)
        (handleMouseDown (pointer_at 0 0) 1 (draw_stroke 1 drawing_viewer gesture_C)))
      (fresh_canvas 1200 1600) 1)) =
     [[], [(600, 800), (1200, 1600)], [(0, 0), (300, 1200)]]"
  using normalized_replay [of "fresh_canvas 1200 1600" fresh_ctx
      "handleMouseMove (pointer_at 150 600)
        (handleMouseDown (pointer_at 0 0) 1 (draw_stroke 1 drawing_viewer gesture_C))" 1]
  by (simp add: gesture_C_viewer drawing_viewer_simps handleMouseMove_def handleMouseDown_def
        or_empty_def fresh_canvas_def fresh_ctx_def spec_pixel_def event_point_def pointer_at_def)

section \<open>Eraser and ink\<close>

text \<open>
  C8. Painting page \<open>p\<close>, the compositor clears the canvas and then makes one call of
  \<^verbatim>\<open>stroke\<close> for each stroke of the page it paints (those of two points or more), in
  the order of the store. The call for a stroke whose colour is \<^verbatim>\<open>eraser\<close> is made with
  the composite operation \<^verbatim>\<open>destination-out\<close> and the fixed line width 20; the call for
  a stroke of any other colour with \<^verbatim>\<open>source-over\<close>, the colour of that stroke as stroke
  style and the width of that stroke as line width. Line cap and line join are
  \<^verbatim>\<open>round\<close> in both cases, and the path is the path of that stroke.
\<close>

theorem eraser_and_ink_blending:
  "context2d cnv = Some ctx \<Longrightarrow>
     take (Suc (length (painted ctx))) (render_trace s cnv p) =
       painted ctx @ [ClearRect 0 0 (canvas_width cnv) (canvas_height cnv)] \<and>
     list_all2 (paints_as (canvas_width cnv) (canvas_height cnv))
       (filter (\<lambda>d. 2 \<le> length (points d)) (or_empty (drawings s) p))
       (drop (Suc (length (painted ctx))) (render_trace s cnv p))"
proof -
  assume c: "context2d cnv = Some ctx"
  let ?c0 = "clearRect 0 0 (canvas_width cnv) (canvas_height cnv) ctx"
  obtain ops where ops:
    "render_trace s cnv p = painted ?c0 @ ops"
    "list_all2 (paints_as (canvas_width cnv) (canvas_height cnv))
       (filter (\<lambda>d. 2 \<le> length (points d)) (or_empty (drawings s) p)) ops"
    using forEach_paints [of "canvas_width cnv" "canvas_height cnv" ?c0 "or_empty (drawings s) p"]
    by (auto simp add: render_trace_ctx [OF c])
  have "render_trace s cnv p =
      (painted ctx @ [ClearRect 0 0 (canvas_width cnv) (canvas_height cnv)]) @ ops"
    using ops(1) by (simp add: clearRect_def)
  then show ?thesis using ops(2) by simp
qed

theorem eraser_and_ink_blending_witness:
  "context2d (fresh_canvas 600 800) = Some fresh_ctx \<and>
   or_empty (drawings (foldl (draw_stroke 1) drawing_viewer [gesture_A, gesture_B])) 1 =
     [\<lparr>drawing_id = ''draw-1'', color = ''#ff0000'', strokeWidth = 4,
       points = [\<lparr>px = 0, py = 0\<rparr>, \<lparr>px = 1, py = 1\<rparr>]\<rparr>,
      \<lparr>drawing_id = ''draw-2'', color = ''eraser'', strokeWidth = 20,
       points = [\<lparr>px = 0.2, py = 0.2\<rparr>, \<lparr>px = 0.8, py = 0.8\<rparr>]\<rparr>] \<and>
   render_trace (foldl (draw_stroke 1) drawing_viewer [gesture_A, gesture_B])
       (fresh_canvas 600 800) 1 =
     [ClearRect 0 0 600 800,
      Stroke \<lparr>s_path = [MoveTo 0 0, LineTo 600 800],
              s_composite = ''source-over'', s_style = ''#ff0000'', s_width = 4,
              s_cap = ''round'', s_join = ''round''\<rparr>,
      Stroke \<lparr>s_path = [MoveTo 120 160, LineTo 480 640],
              s_composite = ''destination-out'', s_style = ''#ff0000'', s_width = 20,
              s_cap = ''round'', s_join = ''round''\<rparr>] \<and>
   list_all2 (paints_as 600 800)
     [stroke_of gesture_A, stroke_of gesture_B]
     (drop 1 (render_trace (foldl (draw_stroke 1) drawing_viewer [gesture_A, gesture_B])
                (fresh_canvas 600 800) 1))"
proof -
  have A: "stroke_of gesture_A =
      \<lparr>drawing_id = ''draw-1'', color = ''#ff0000'', strokeWidth = 4,
       points = [\<lparr>px = 0, py = 0\<rparr>, \<lparr>px = 1, py = 1\<rparr>]\<rparr>"
    by (simp add: stroke_of_def newDrawing_def gesture_A_def event_point_def pointer_at_def
          string_of_nat.simps)
  have B: "stroke_of gesture_B =
      \<lparr>drawing_id = ''draw-2'', color = ''eraser'', strokeWidth = 20,
       points = [\<lparr>px = 0.2, py = 0.2\<rparr>, \<lparr>px = 0.8, py = 0.8\<rparr>]\<rparr>"
    by (simp add: stroke_of_def newDrawing_def gesture_B_def event_point_def pointer_at_def
          string_of_nat.simps)
  have st: "or_empty (drawings (foldl (draw_stroke 1) drawing_viewer [gesture_A, gesture_B])) 1 =
      [stroke_of gesture_A, stroke_of gesture_B]"
    by (simp add: two_strokes_viewer or_empty_def)
  have c: "context2d (fresh_canvas 600 800) = Some fresh_ctx"
    by (simp add: fresh_canvas_def)
  have tr: "render_trace (foldl (draw_stroke 1) drawing_viewer [gesture_A, gesture_B])
       (fresh_canvas 600 800) 1 =
     [ClearRect 0 0 600 800,
      Stroke \<lparr>s_path = [MoveTo 0 0, LineTo 600 800],
              s_composite = ''source-over'', s_style = ''#ff0000'', s_width = 4,
              s_cap = ''round'', s_join = ''round''\<rparr>,
      Stroke \<lparr>s_path = [MoveTo 120 160, LineTo 480 640],
              s_composite = ''destination-out'', s_style = ''#ff0000'', s_width = 20,
              s_cap = ''round'', s_join = ''round''\<rparr>]"
    unfolding render_trace_ctx [OF c] st
    by (simp add: A B drawPath_long clearRect_def scaled_path_def fresh_canvas_def fresh_ctx_def)
  show ?thesis
    using eraser_and_ink_blending [of "fresh_canvas 600 800" fresh_ctx
      "foldl (draw_stroke 1) drawing_viewer [gesture_A, gesture_B]" 1]
    unfolding tr st by (simp add: c A B fresh_ctx_def)
qed

section \<open>Pages are independent\<close>

text \<open>
  C9. For two different pages \<open>p\<close> and \<open>q\<close>: a stroke commit on \<open>p\<close>, whichever page
  is the active one, and the snapshot of \<open>p\<close> alone, leave the entries of \<open>q\<close> in the
  drawing store, the history stacks and the future stacks as they were; so do an undo,
  a redo and a clear, which act on the active page, when \<open>p\<close> is the active page.
\<close>

theorem other_page_untouched:
  "p \<noteq> q \<Longrightarrow>
     page_state (handleEnd p t s) q = page_state s q \<and>
     page_state (saveHistory p s) q = page_state s q \<and>
     (activePage s = p \<longrightarrow>
        page_state (undo s) q = page_state s q \<and>
        page_state (redo s) q = page_state s q \<and>
        page_state (clearPageDrawings s) q = page_state s q)"
  by (simp add: page_state_def handleEnd_def undo_def redo_def clearPageDrawings_def
        saveHistory_def Let_def)

theorem other_page_untouched_witness:
  "(1::nat) \<noteq> 2 \<and> (2::nat) \<noteq> 1 \<and>
   activePage (draw_stroke 1 (draw_stroke 2 drawing_viewer gesture_B) gesture_A) = 1 \<and>
   page_state (draw_stroke 1 (draw_stroke 2 drawing_viewer gesture_B) gesture_A) 1 =
     (Some [stroke_of gesture_A], Some [[]], Some []) \<and>
   page_state (draw_stroke 1 (draw_stroke 2 drawing_viewer gesture_B) gesture_A) 2 =
     (Some [stroke_of gesture_B], Some [[]], Some []) \<and>
   page_state (handleEnd 1 7 (handleMouseDown (pointer_at 300 400) 1
       (draw_stroke 1 (draw_stroke 2 drawing_viewer gesture_B) gesture_A))) 1 =
     (Some [stroke_of gesture_A, newDrawing 7 ''#ff0000'' [\<lparr>px = 0.5, py = 0.5\<rparr>]],
      Some [[], [stroke_of gesture_A]], Some []) \<and>
   page_state (handleEnd 1 7 (handleMouseDown (pointer_at 300 400) 1
       (draw_stroke 1 (draw_stroke 2 drawing_viewer gesture_B) gesture_A))) 2 =
     (Some [stroke_of gesture_B], Some [[]], Some []) \<and>
   page_state (handleEnd 2 7 (handleMouseDown (pointer_at 300 400) 1
       (draw_stroke 1 (draw_stroke 2 drawing_viewer gesture_B) gesture_A))) 2 =
     (Some [stroke_of gesture_B, newDrawing 7 ''#ff0000'' [\<lparr>px = 0.5, py = 0.5\<rparr>]],
      Some [[], [stroke_of gesture_B]], Some []) \<and>
   page_state (handleEnd 2 7 (handleMouseDown (pointer_at 300 400) 1
       (draw_stroke 1 (draw_stroke 2 drawing_viewer gesture_B) gesture_A))) 1 =
     (Some [stroke_of gesture_A], Some [[]], Some []) \<and>
   page_state (saveHistory 1 (draw_stroke 1 (draw_stroke 2 drawing_viewer gesture_B) gesture_A)) 1 =
     (Some [stroke_of gesture_A], Some [[], [stroke_of gesture_A]], Some []) \<and>
   page_state (saveHistory 1 (draw_stroke 1 (draw_stroke 2 drawing_viewer gesture_B) gesture_A)) 2 =
     (Some [stroke_of gesture_B], Some [[]], Some []) \<and>
   page_state (undo (draw_stroke 1 (draw_stroke 2 drawing_viewer gesture_B) gesture_A)) 1 =
     (Some [], Some [], Some [[stroke_of gesture_A]]) \<and>
   page_state (undo (draw_stroke 1 (draw_stroke 2 drawing_viewer gesture_B) gesture_A)) 2 =
     (Some [stroke_of gesture_B], Some [[]], Some []) \<and>
   activePage (undo (draw_stroke 1 (draw_stroke 2 drawing_viewer gesture_B) gesture_A)) = 1 \<and>
   page_state (redo (undo (draw_stroke 1 (draw_stroke 2 drawing_viewer gesture_B) gesture_A))) 1 =
     (Some [stroke_of gesture_A], Some [[]], Some []) \<and>
   page_state (redo (undo (draw_stroke 1 (draw_stroke 2 drawing_viewer gesture_B) gesture_A))) 2 =
     (Some [stroke_of gesture_B], Some [[]], Some []) \<and>
   page_state (clearPageDrawings (draw_stroke 1 (draw_stroke 2 drawing_viewer gesture_B) gesture_A)) 1 =
     (Some [], Some [[], [stroke_of gesture_A]], Some []) \<and>
   page_state (clearPageDrawings (draw_stroke 1 (draw_stroke 2 drawing_viewer gesture_B) gesture_A)) 2 =
     (Some [stroke_of gesture_B], Some [[]], Some [])"
  using other_page_untouched [of 1 2 7 "handleMouseDown (pointer_at 300 400) 1
       (draw_stroke 1 (draw_stroke 2 drawing_viewer gesture_B) gesture_A)"]
    other_page_untouched [of 2 1 7 "handleMouseDown (pointer_at 300 400) 1
       (draw_stroke 1 (draw_stroke 2 drawing_viewer gesture_B) gesture_A)"]
    other_page_untouched [of 1 2 7 "draw_stroke 1 (draw_stroke 2 drawing_viewer gesture_B) gesture_A"]
    other_page_untouched [of 1 2 7
      "undo (draw_stroke 1 (draw_stroke 2 drawing_viewer gesture_B) gesture_A)"]
  by (simp add: two_page_viewer drawing_viewer_simps page_state_def handleMouseDown_def
        event_point_def pointer_at_def handleEnd_def saveHistory_def undo_def redo_def
        clearPageDrawings_def or_empty_def Let_def)

section \<open>Strokes of a single point\<close>

text \<open>
  C10. \<^verbatim>\<open>drawPath\<close> returns the context as it got it when the stroke has fewer than two
  points. An end event in drawing mode with a path of fewer than two points (and at least
  one) still appends the stroke to the store of the page, and the canvas painted from
  the store afterwards is the canvas painted from the store before. The stroke takes part
  in the snapshots: an undo on the page returns to the strokes before and pushes the
  sequence with the stroke on the future stack, and the redo brings it back.
\<close>

theorem short_stroke_kept_not_drawn:
  "(length pts < 2 \<longrightarrow> drawPath W H pts c width ctx = ctx) \<and>
   (isDrawingMode s \<and> currentPath s \<noteq> [] \<and> length (currentPath s) < 2 \<longrightarrow>
      or_empty (drawings (handleEnd p t s)) p =
        or_empty (drawings s) p @ [newDrawing t (penColor s) (currentPath s)] \<and>
      renderDrawings (handleEnd p t s) cv p = renderDrawings s cv p \<and>
      (activePage s = p \<longrightarrow>
         or_empty (drawings (undo (handleEnd p t s))) p = or_empty (drawings s) p \<and>
         last (or_empty (future (undo (handleEnd p t s))) p) =
           or_empty (drawings s) p @ [newDrawing t (penColor s) (currentPath s)] \<and>
         or_empty (drawings (redo (undo (handleEnd p t s)))) p =
           or_empty (drawings s) p @ [newDrawing t (penColor s) (currentPath s)]))"
proof (intro conjI impI)
  assume "length pts < 2"
  then show "drawPath W H pts c width ctx = ctx" by (rule drawPath_short)
next
  assume a: "isDrawingMode s \<and> currentPath s \<noteq> [] \<and> length (currentPath s) < 2"
  define d where "d = newDrawing t (penColor s) (currentPath s)"
  have he: "handleEnd p t s =
      s\<lparr>history := (history s)(p \<mapsto> or_empty (history s) p @ [or_empty (drawings s) p]),
        future := (future s)(p \<mapsto> []),
        drawings := (drawings s)(p \<mapsto> or_empty (drawings s) p @ [d]),
        currentPath := []\<rparr>"
    using a by (simp add: handleEnd_def saveHistory_def Let_def d_def)
  show "or_empty (drawings (handleEnd p t s)) p =
        or_empty (drawings s) p @ [newDrawing t (penColor s) (currentPath s)]"
    by (simp add: he or_empty_def d_def)
  have short: "length (points d) < 2" using a by (simp add: d_def newDrawing_def)
  show "renderDrawings (handleEnd p t s) cv p = renderDrawings s cv p"
    by (simp add: he renderDrawings_def drawPath_short [OF short] or_empty_def
          split: option.splits)
  {
    assume ap: "activePage s = p"
    have un: "undo (handleEnd p t s) =
      s\<lparr>history := (history s)(p \<mapsto> or_empty (history s) p),
        future := (future s)(p \<mapsto> [or_empty (drawings s) p @ [d]]),
        drawings := (drawings s)(p \<mapsto> or_empty (drawings s) p),
        currentPath := []\<rparr>"
      by (simp add: he undo_def or_empty_def ap)
    show "or_empty (drawings (undo (handleEnd p t s))) p = or_empty (drawings s) p"
      by (simp add: un or_empty_def)
    show "last (or_empty (future (undo (handleEnd p t s))) p) =
           or_empty (drawings s) p @ [newDrawing t (penColor s) (currentPath s)]"
      by (simp add: un or_empty_def d_def)
    show "or_empty (drawings (redo (undo (handleEnd p t s)))) p =
           or_empty (drawings s) p @ [newDrawing t (penColor s) (currentPath s)]"
      by (simp add: un redo_def or_empty_def ap d_def)
  }
qed

theorem short_stroke_kept_not_drawn_witness:
  "length [\<lparr>px = 0.5, py = 0.5\<rparr>] < 2 \<and>
   drawPath 600 800 [\<lparr>px = 0.5, py = 0.5\<rparr>] ''#ef4444'' 4 fresh_ctx = fresh_ctx \<and>
   isDrawingMode (handleMouseDown (pointer_at 300 400) 1 drawing_viewer) \<and>
   currentPath (handleMouseDown (pointer_at 300 400) 1 drawing_viewer) = [\<lparr>px = 0.5, py = 0.5\<rparr>] \<and>
   activePage (handleMouseDown (pointer_at 300 400) 1 drawing_viewer) = 1 \<and>
   or_empty (drawings (handleEnd 1 42 (handleMouseDown (pointer_at 300 400) 1 drawing_viewer))) 1 =
     [newDrawing 42 ''#ef4444'' [\<lparr>px = 0.5, py = 0.5\<rparr>]] \<and>
   renderDrawings (handleEnd 1 42 (handleMouseDown (pointer_at 300 400) 1 drawing_viewer))
      (Some (fresh_canvas 600 800)) 1 =
     renderDrawings (handleMouseDown (pointer_at 300 400) 1 drawing_viewer)
      (Some (fresh_canvas 600 800)) 1 \<and>
   or_empty (drawings (undo (handleEnd 1 42 (handleMouseDown (pointer_at 300 400) 1 drawing_viewer)))) 1 = [] \<and>
   or_empty (drawings (redo (undo (handleEnd 1 42
      (handleMouseDown (pointer_at 300 400) 1 drawing_viewer))))) 1 =
     [newDrawing 42 ''#ef4444'' [\<lparr>px = 0.5, py = 0.5\<rparr>]]"
  using short_stroke_kept_not_drawn [of "[\<lparr>px = 0.5, py = 0.5\<rparr>]" 600 800 "''#ef4444''" 4 fresh_ctx
      "handleMouseDown (pointer_at 300 400) 1 drawing_viewer" 1 42 "Some (fresh_canvas 600 800)"]
  by (simp add: handleMouseDown_def drawing_viewer_simps or_empty_def event_point_def pointer_at_def)

end
